theory Spec2Isabelle
  imports Main "HOL-Library.Char_ord" "HOL-Library.List_Lexorder"
begin

text \<open>
  A model of \<open>nvidia-signing-script.py\<close>, the script that signs the Nvidia kernel modules
  of every installed kernel newer than the running one. Each function of the script is a
  function of the same name here; the commands the script runs, the decoding of their
  output and the version library are parameters.
\<close>

section \<open>Python text primitives\<close>

text \<open>
  Python \<open>str\<close> values are modelled as HOL strings, one \<open>char\<close> per code point, so the
  model covers text whose code points lie below 256. On that range the character classes
  of Python 3 are the ones written out below: \<open>\d\<close> of module \<open>re\<close> is the decimal digits
  \<open>0\<close> to \<open>9\<close>, \<open>str.isdigit\<close> also accepts the superscripts U+00B2, U+00B3 and U+00B9,
  \<open>str.isalpha\<close> accepts the ASCII letters and the letters of the Latin-1 supplement, and
  \<open>str.rstrip ()\<close> removes the characters for which \<open>str.isspace\<close> holds.
\<close>

definition isdigit_char :: "char \<Rightarrow> bool" where
  "isdigit_char c = ((CHR ''0'' \<le> c \<and> c \<le> CHR ''9'') \<or> c = CHR 0xB2 \<or> c = CHR 0xB3 \<or> c = CHR 0xB9)"

definition isalpha_char :: "char \<Rightarrow> bool" where
  "isalpha_char c = ((CHR ''A'' \<le> c \<and> c \<le> CHR ''Z'') \<or> (CHR ''a'' \<le> c \<and> c \<le> CHR ''z'')
     \<or> c = CHR 0xAA \<or> c = CHR 0xB5 \<or> c = CHR 0xBA
     \<or> (CHR 0xC0 \<le> c \<and> c \<le> CHR 0xD6) \<or> (CHR 0xD8 \<le> c \<and> c \<le> CHR 0xF6) \<or> CHR 0xF8 \<le> c)"

definition isspace_char :: "char \<Rightarrow> bool" where
  "isspace_char c = ((CHR 0x09 \<le> c \<and> c \<le> CHR 0x0D) \<or> (CHR 0x1C \<le> c \<and> c \<le> CHR 0x20)
     \<or> c = CHR 0x85 \<or> c = CHR 0xA0)"

text \<open>\<open>s.isdigit ()\<close> and \<open>s.isalpha ()\<close>: false on the empty string.\<close>

definition isdigit :: "string \<Rightarrow> bool" where
  "isdigit s = (s \<noteq> [] \<and> list_all isdigit_char s)"

definition isalpha :: "string \<Rightarrow> bool" where
  "isalpha s = (s \<noteq> [] \<and> list_all isalpha_char s)"

text \<open>The slices \<open>s [-1:]\<close> and \<open>s [:-1]\<close>; neither raises on the empty string.\<close>

definition slice_from_last :: "string \<Rightarrow> string" where
  "slice_from_last s = drop (length s - 1) s"

definition slice_to_last :: "string \<Rightarrow> string" where
  "slice_to_last s = take (length s - 1) s"

definition rstrip :: "string \<Rightarrow> string" where
  "rstrip s = rev (dropWhile isspace_char (rev s))"

text \<open>\<open>s.split ('\n')\<close>: the pieces between newlines, so one more piece than newlines.\<close>

fun split_from :: "string \<Rightarrow> string \<Rightarrow> string list" where
  "split_from piece [] = [piece]"
| "split_from piece (c # cs) =
     (if c = CHR 0x0A then piece # split_from [] cs else split_from (piece @ [c]) cs)"

definition split_newline :: "string \<Rightarrow> string list" where
  "split_newline s = split_from [] s"

section \<open>Regular expressions of module re\<close>

text \<open>
  The fragment of \<open>re\<close> syntax the script uses: a character class, concatenation,
  alternation and the greedy \<open>+\<close>. \<open>rmatch r s\<close> lists, in the order in which the
  backtracking matcher tries them, the remainders of \<open>s\<close> after each way of matching \<open>r\<close>
  at the start of \<open>s\<close>: an alternation tries its left branch first, a greedy repetition
  tries one more round before it stops. The matcher takes the first entry.
\<close>

datatype regex = Class "char \<Rightarrow> bool" | Then regex regex | Or regex regex | Plus regex

fun rmatch :: "regex \<Rightarrow> string \<Rightarrow> string list" where
  "rmatch (Class P) s = (case s of [] \<Rightarrow> [] | c # cs \<Rightarrow> if P c then [cs] else [])"
| "rmatch (Then a b) s = concat (map (rmatch b) (rmatch a s))"
| "rmatch (Or a b) s = rmatch a s @ rmatch b s"
| "rmatch (Plus a) s =
     concat (map (\<lambda>t. (if length t < length s then rmatch (Plus a) t else []) @ [t]) (rmatch a s))"

text \<open>
  \<open>re.search (r, s)\<close> followed by \<open>.group (0)\<close>: the start positions are tried from left
  to right, the end of the string included; \<open>None\<close> is Python's \<open>None\<close>.
\<close>

fun search :: "regex \<Rightarrow> string \<Rightarrow> string option" where
  "search r [] = (case rmatch r [] of t # _ \<Rightarrow> Some [] | [] \<Rightarrow> None)"
| "search r (c # cs) =
     (case rmatch r (c # cs) of
        t # _ \<Rightarrow> Some (take (length (c # cs) - length t) (c # cs))
      | [] \<Rightarrow> search r cs)"

definition re_digit :: "char \<Rightarrow> bool" where
  "re_digit c = (CHR ''0'' \<le> c \<and> c \<le> CHR ''9'')"

definition re_lower :: "char \<Rightarrow> bool" where
  "re_lower c = (CHR ''a'' \<le> c \<and> c \<le> CHR ''z'')"

definition re_upper :: "char \<Rightarrow> bool" where
  "re_upper c = (CHR ''A'' \<le> c \<and> c \<le> CHR ''Z'')"

text \<open>The pattern \<^verbatim>\<open>\d+(\d+|\.|\-|[a-z]|[A-Z])+\<close> of \<open>extractKernelVersionString\<close>.\<close>

definition digits :: regex where
  "digits = Plus (Class re_digit)"

definition piece :: regex where
  "piece =
     Or digits
       (Or (Class (\<lambda>c. c = CHR ''.''))
       (Or (Class (\<lambda>c. c = CHR ''-''))
       (Or (Class re_lower) (Class re_upper))))"

definition version_pattern :: regex where
  "version_pattern = Then digits (Plus piece)"

section \<open>Errors\<close>

text \<open>
  Every way a function of the script stops without returning is a value of \<open>exn\<close>.
  \<open>handleError\<close> prints its message and calls \<open>sys.exit\<close>; \<open>SystemExit\<close> records the
  exit code and the message printed before it. Looking the code up in the four-element
  list \<open>exitCodes\<close> raises \<open>IndexError\<close> outside the indices Python accepts.
\<close>

datatype exn =
    SystemExit int string
  | OSError
  | CalledProcessError int
  | UnicodeDecodeError
  | UnboundLocalError
  | IndexError

definition exitCodes :: "string list" where
  "exitCodes = [''Success, normal exit'', ''Package manager not found'',
     ''Unable to sign a kernel module'', ''Unable to extract kernel version string'']"

definition handleError :: "string \<Rightarrow> int \<Rightarrow> exn" where
  "handleError errorMessage exitCode =
     (if - int (length exitCodes) \<le> exitCode \<and> exitCode < int (length exitCodes)
      then SystemExit exitCode errorMessage else IndexError)"

text \<open>
  The exit status of the interpreter: 0 when \<open>main\<close> returns, the code of \<open>sys.exit\<close>,
  and 1 for any other uncaught exception.
\<close>

fun exit_status :: "exn + 'a \<Rightarrow> int" where
  "exit_status (Inr _) = 0"
| "exit_status (Inl (SystemExit exitCode _)) = exitCode mod 256"
| "exit_status (Inl _) = 1"

section \<open>Version extraction\<close>

definition extractKernelVersionString :: "string \<Rightarrow> exn + string" where
  "extractKernelVersionString line =
     (case search version_pattern line of
        None \<Rightarrow> Inl (handleError (''Unable to extract version string for kernel line: '' @ line) 3)
      | Some versionString \<Rightarrow>
          Inr (if \<not> (isdigit (slice_from_last versionString) \<or> isalpha (slice_from_last versionString))
               then slice_to_last versionString else versionString))"

text \<open>
  The words of the specification: a version-like string is a digit followed by one or more
  characters that are digits, \<open>.\<close>, \<open>-\<close> or letters.
\<close>

definition version_char :: "char \<Rightarrow> bool" where
  "version_char c = (re_digit c \<or> c = CHR ''.'' \<or> c = CHR ''-'' \<or> re_lower c \<or> re_upper c)"

fun version_like :: "string \<Rightarrow> bool" where
  "version_like (d # c # cs) = (re_digit d \<and> version_char c \<and> list_all version_char cs)"
| "version_like _ = False"

text \<open>
  The leftmost version-like substring, extended to the right as far as it stays
  version-like, with the text before and after it; \<open>None\<close> when the line has no
  version-like substring.
\<close>

fun first_version_like :: "string \<Rightarrow> (string \<times> string \<times> string) option" where
  "first_version_like [] = None"
| "first_version_like [d] = None"
| "first_version_like (d # c # cs) =
     (if re_digit d \<and> version_char c
      then Some ([], d # takeWhile version_char (c # cs), dropWhile version_char (c # cs))
      else map_option (\<lambda>(u, v, w). (d # u, v, w)) (first_version_like (c # cs)))"

section \<open>Version comparison\<close>

text \<open>
  \<open>compareKernels\<close> parses both strings with \<open>pkg_resources.parse_version\<close> and compares
  the parsed versions. That library is not part of the script; its parser and the order
  of its version objects are parameters of the model. \<open>a > b\<close> on version objects is
  read as \<open>b < a\<close>.
\<close>

record 'v pkg_resources =
  parse_version :: "string \<Rightarrow> 'v"
  version_less :: "'v \<Rightarrow> 'v \<Rightarrow> bool"

definition compareKernels :: "'v pkg_resources \<Rightarrow> string \<Rightarrow> string \<Rightarrow> int" where
  "compareKernels P kernel1 kernel2 =
     (let kernel1Version = parse_version P kernel1;
          kernel2Version = parse_version P kernel2
      in if version_less P kernel2Version kernel1Version then 1
         else if version_less P kernel1Version kernel2Version then - 1
         else 0)"

text \<open>The loop of \<open>getNewKernels\<close>; \<open>newKernels\<close> is the list built so far.\<close>

fun newer_from :: "'v pkg_resources \<Rightarrow> string \<Rightarrow> string list \<Rightarrow> string list \<Rightarrow> string list" where
  "newer_from P currentKernel newKernels [] = newKernels"
| "newer_from P currentKernel newKernels (installedKernel # installedKernels) =
     newer_from P currentKernel
       (if compareKernels P installedKernel currentKernel = 1
        then newKernels @ [installedKernel] else newKernels)
       installedKernels"

definition getNewKernels :: "'v pkg_resources \<Rightarrow> string \<Rightarrow> string list \<Rightarrow> string list" where
  "getNewKernels P currentKernel installedKernels = newer_from P currentKernel [] installedKernels"

subsection \<open>The comparator of the specification\<close>

text \<open>
  Modelled from the spec: \<open>pkg_resources.parse_version\<close> and the order of the versions
  it returns, which the script imports from a library outside the repository. The
  specification describes them so: a token is split into segments at \<open>.\<close> and \<open>-\<close>;
  corresponding segments are compared numerically when both are numeric and lexically
  otherwise; a version that is a proper prefix of another is the lesser one.
\<close>

fun segments_from :: "string \<Rightarrow> string \<Rightarrow> string list" where
  "segments_from segment [] = [segment]"
| "segments_from segment (c # cs) =
     (if c = CHR ''.'' \<or> c = CHR ''-'' then segment # segments_from [] cs
      else segments_from (segment @ [c]) cs)"

definition numeric :: "string \<Rightarrow> bool" where
  "numeric segment = (segment \<noteq> [] \<and> list_all re_digit segment)"

fun number_from :: "nat \<Rightarrow> string \<Rightarrow> nat" where
  "number_from n [] = n"
| "number_from n (c # cs) = number_from (10 * n + (of_char c - 48)) cs"

definition segment_less :: "string \<Rightarrow> string \<Rightarrow> bool" where
  "segment_less a b =
     (if numeric a \<and> numeric b then number_from 0 a < number_from 0 b else a < b)"

fun segments_less :: "string list \<Rightarrow> string list \<Rightarrow> bool" where
  "segments_less [] [] = False"
| "segments_less [] (b # bs) = True"
| "segments_less (a # as) [] = False"
| "segments_less (a # as) (b # bs) =
     (if segment_less a b then True else if segment_less b a then False
      else segments_less as bs)"

definition spec_versions :: "string list pkg_resources" where
  "spec_versions = \<lparr>parse_version = segments_from [], version_less = segments_less\<rparr>"

section \<open>Running commands\<close>

text \<open>
  The operating system is a parameter. \<open>spawn\<close> takes the argument vector and the state
  of the world and answers either that the program could not be started (\<open>subprocess\<close>
  raises \<open>OSError\<close>) or with the exit status and the bytes written to standard output,
  together with the new state of the world. \<open>decode\<close> is \<open>bytes.decode ('utf-8')\<close>,
  \<open>None\<close> standing for \<open>UnicodeDecodeError\<close>. The state threaded through the script also
  records every argument vector handed to \<open>subprocess\<close>, in order.
\<close>

datatype 'b completed = NotStarted | Exited int 'b

record ('w, 'b) os =
  spawn :: "string list \<Rightarrow> 'w \<Rightarrow> 'b completed \<times> 'w"
  decode :: "'b \<Rightarrow> string option"

record 'w sys =
  world :: 'w
  calls :: "string list list"

definition launch :: "('w, 'b) os \<Rightarrow> string list \<Rightarrow> 'w sys \<Rightarrow> 'b completed \<times> 'w sys" where
  "launch os argv s =
     (case spawn os argv (world s) of
        (r, w) \<Rightarrow> (r, \<lparr>world = w, calls = calls s @ [argv]\<rparr>))"

text \<open>
  \<open>subprocess.check_output\<close> raises \<open>CalledProcessError\<close> when the exit status is not
  zero; the \<open>except\<close> clause of the script catches \<open>OSError\<close> only and raises it again.
\<close>

definition executeCommandWithOutput ::
  "('w, 'b) os \<Rightarrow> string \<Rightarrow> string list \<Rightarrow> 'w sys \<Rightarrow> (exn + string) \<times> 'w sys" where
  "executeCommandWithOutput os commandName commandArgs s =
     (case launch os (commandName # commandArgs) s of
        (NotStarted, s') \<Rightarrow> (Inl OSError, s')
      | (Exited returncode responseBytes, s') \<Rightarrow>
          if returncode \<noteq> 0 then (Inl (CalledProcessError returncode), s')
          else (case decode os responseBytes of
                  None \<Rightarrow> (Inl UnicodeDecodeError, s')
                | Some text \<Rightarrow> (Inr text, s')))"

definition executeCommandWithExitStatus ::
  "('w, 'b) os \<Rightarrow> string \<Rightarrow> string list \<Rightarrow> 'w sys \<Rightarrow> int \<times> 'w sys" where
  "executeCommandWithExitStatus os commandName commandArgs s =
     (case launch os (commandName # commandArgs) s of
        (NotStarted, s') \<Rightarrow> (127, s')
      | (Exited exitStatus _, s') \<Rightarrow> (exitStatus, s'))"

section \<open>Signing\<close>

definition SIGN_BINARY_PATH :: "string \<Rightarrow> string" where
  "SIGN_BINARY_PATH kernel' = ''/usr/src/kernels/'' @ kernel' @ ''/scripts/sign-file''"

definition MODULES_PATH :: "string \<Rightarrow> string" where
  "MODULES_PATH kernel' = ''/usr/lib/modules/'' @ kernel' @ ''/extra/nvidia/''"

definition MODULE_NAMES :: "string list" where
  "MODULE_NAMES = [''nvidia-drm.ko'', ''nvidia.ko'', ''nvidia-modeset.ko'', ''nvidia-uvm.ko'']"

text \<open>The loop of \<open>signKernel\<close> over the module names still to be signed.\<close>

fun sign_from ::
  "('w, 'b) os \<Rightarrow> string \<Rightarrow> string \<Rightarrow> string \<Rightarrow> string list \<Rightarrow> 'w sys \<Rightarrow> (exn + unit) \<times> 'w sys" where
  "sign_from os kernel' privateKeyPath publicKeyPath [] s = (Inr (), s)"
| "sign_from os kernel' privateKeyPath publicKeyPath (module # modules) s =
     (case executeCommandWithExitStatus os (SIGN_BINARY_PATH kernel')
             [''sha256'', privateKeyPath, publicKeyPath, MODULES_PATH kernel' @ module] s of
        (exitStatus, s') \<Rightarrow>
          if exitStatus \<noteq> 0
          then (Inl (handleError (''Error signing kernel module: '' @ module) 2), s')
          else sign_from os kernel' privateKeyPath publicKeyPath modules s')"

definition signKernel ::
  "('w, 'b) os \<Rightarrow> string \<Rightarrow> string \<Rightarrow> string \<Rightarrow> 'w sys \<Rightarrow> (exn + unit) \<times> 'w sys" where
  "signKernel os kernel' privateKeyPath publicKeyPath s =
     sign_from os kernel' privateKeyPath publicKeyPath MODULE_NAMES s"

fun signNewKernels ::
  "('w, 'b) os \<Rightarrow> string list \<Rightarrow> string \<Rightarrow> string \<Rightarrow> 'w sys \<Rightarrow> (exn + unit) \<times> 'w sys" where
  "signNewKernels os [] privateKeyPath publicKeyPath s = (Inr (), s)"
| "signNewKernels os (newKernel # newKernels) privateKeyPath publicKeyPath s =
     (case signKernel os newKernel privateKeyPath publicKeyPath s of
        (Inl e, s') \<Rightarrow> (Inl e, s')
      | (Inr _, s') \<Rightarrow> signNewKernels os newKernels privateKeyPath publicKeyPath s')"

section \<open>Package manager and kernels\<close>

definition getPackageManager :: "('w, 'b) os \<Rightarrow> 'w sys \<Rightarrow> (exn + string) \<times> 'w sys" where
  "getPackageManager os s =
     (case executeCommandWithExitStatus os ''rpm'' [''--version''] s of
        (rpmStatus, s1) \<Rightarrow>
          if rpmStatus = 0 then (Inr ''rpm'', s1)
          else (case executeCommandWithExitStatus os ''dpkg'' [''--version''] s1 of
            (dpkgStatus, s2) \<Rightarrow>
              if dpkgStatus = 0 then (Inr ''dpkg'', s2)
              else (case executeCommandWithExitStatus os ''pacman'' [''--version''] s2 of
                (pacmanStatus, s3) \<Rightarrow>
                  if pacmanStatus = 0 then (Inr ''pacman'', s3)
                  else (Inl (handleError ''Package manager could not be determined'' 1), s3))))"

text \<open>
  \<open>getCurrentKernel\<close> calls \<open>unameOutput.rstrip ()\<close> and drops the result: strings are
  immutable, so the line handed to the extraction is the output as captured.
\<close>

definition getCurrentKernel :: "('w, 'b) os \<Rightarrow> 'w sys \<Rightarrow> (exn + string) \<times> 'w sys" where
  "getCurrentKernel os s =
     (case executeCommandWithOutput os ''uname'' [''-r''] s of
        (Inl e, s') \<Rightarrow> (Inl e, s')
      | (Inr unameOutput, s') \<Rightarrow>
          (let dropped = rstrip unameOutput
           in (extractKernelVersionString unameOutput, s')))"

text \<open>The loop of \<open>getInstalledKernels\<close>; \<open>kernelVersions\<close> is the list built so far.\<close>

fun versions_from :: "string list \<Rightarrow> string list \<Rightarrow> exn + string list" where
  "versions_from kernelVersions [] = Inr kernelVersions"
| "versions_from kernelVersions (line # outputLines) =
     (case extractKernelVersionString line of
        Inl e \<Rightarrow> Inl e
      | Inr versionString \<Rightarrow> versions_from (kernelVersions @ [versionString]) outputLines)"

text \<open>
  A package manager other than the three leaves \<open>output\<close> unbound, and reading it raises
  \<open>UnboundLocalError\<close>.
\<close>

definition getInstalledKernels ::
  "('w, 'b) os \<Rightarrow> string \<Rightarrow> 'w sys \<Rightarrow> (exn + string list) \<times> 'w sys" where
  "getInstalledKernels os packageManager s =
     (case (if packageManager = ''rpm''
            then executeCommandWithOutput os ''rpm'' [''-qa'', ''kernel''] s
            else if packageManager = ''dpkg''
            then executeCommandWithOutput os ''dpkg'' [''--list'', ''|'', ''grep'', ''linux-image''] s
            else if packageManager = ''pacman''
            then executeCommandWithOutput os ''pacman'' [''-Q'', ''|'', ''grep'', ''linux''] s
            else (Inl UnboundLocalError, s)) of
        (Inl e, s') \<Rightarrow> (Inl e, s')
      | (Inr output, s') \<Rightarrow> (versions_from [] (split_newline (rstrip output)), s'))"

section \<open>The script\<close>

text \<open>
  \<open>main\<close> after \<open>argparse\<close> has accepted the two positional arguments; the banner and
  the debugging lines it prints are not part of the model.
\<close>

definition main ::
  "'v pkg_resources \<Rightarrow> ('w, 'b) os \<Rightarrow> string \<Rightarrow> string \<Rightarrow> 'w sys \<Rightarrow> (exn + unit) \<times> 'w sys" where
  "main P os privateKeyFile publicKeyFile s =
     (case getPackageManager os s of
        (Inl e, s1) \<Rightarrow> (Inl e, s1)
      | (Inr packageManager, s1) \<Rightarrow>
     (case getCurrentKernel os s1 of
        (Inl e, s2) \<Rightarrow> (Inl e, s2)
      | (Inr currentKernel, s2) \<Rightarrow>
     (case getInstalledKernels os packageManager s2 of
        (Inl e, s3) \<Rightarrow> (Inl e, s3)
      | (Inr installedKernels, s3) \<Rightarrow>
          (let newKernels = getNewKernels P currentKernel installedKernels
           in signNewKernels os newKernels privateKeyFile publicKeyFile s3))))"

section \<open>Notions used in the statements\<close>

text \<open>
  The exit status that \<open>executeCommandWithExitStatus\<close> reports for an argument vector
  run in the world \<open>w\<close>: 127 for a program that cannot be started, the status of the
  process otherwise. \<open>exit_statuses\<close> lists the statuses reported when the argument
  vectors are run one after the other.
\<close>

definition reported_status :: "('w, 'b) os \<Rightarrow> string list \<Rightarrow> 'w \<Rightarrow> int" where
  "reported_status os argv w =
     (case fst (spawn os argv w) of NotStarted \<Rightarrow> 127 | Exited exitStatus _ \<Rightarrow> exitStatus)"

fun exit_statuses :: "('w, 'b) os \<Rightarrow> string list list \<Rightarrow> 'w \<Rightarrow> int list" where
  "exit_statuses os [] w = []"
| "exit_statuses os (argv # argvs) w =
     reported_status os argv w # exit_statuses os argvs (snd (spawn os argv w))"

text \<open>The three probes of \<open>getPackageManager\<close>, in the order of its branches.\<close>

definition probes :: "string list list" where
  "probes = [[''rpm'', ''--version''], [''dpkg'', ''--version''], [''pacman'', ''--version'']]"


text \<open>The listing command of each package manager, as the branches of
  \<open>getInstalledKernels\<close> write them.\<close>

definition listing_commands :: "(string \<times> string list) list" where
  "listing_commands =
     [(''rpm'', [''rpm'', ''-qa'', ''kernel'']),
      (''dpkg'', [''dpkg'', ''--list'', ''|'', ''grep'', ''linux-image'']),
      (''pacman'', [''pacman'', ''-Q'', ''|'', ''grep'', ''linux''])]"

text \<open>
  A scripted operating system for concrete runs: a table from argument vectors to the
  outcome of the process, a program outside the table cannot be started, and the bytes
  written are given as the text they decode to.
\<close>

definition scripted :: "(string list \<times> string completed) list \<Rightarrow> (unit, string) os" where
  "scripted table =
     \<lparr>spawn = (\<lambda>argv w. (case map_of table argv of None \<Rightarrow> NotStarted | Some r \<Rightarrow> r, w)),
      decode = Some\<rparr>"

definition boot :: "unit sys" where
  "boot = \<lparr>world = (), calls = []\<rparr>"

section \<open>The matcher on the version pattern\<close>

declare rmatch.simps(4) [simp del]

lemma digit_is_version_char: "re_digit c \<Longrightarrow> version_char c"
  by (simp add: version_char_def)

lemma digit_not_other:
  "re_digit c \<Longrightarrow> c \<noteq> CHR ''.'' \<and> c \<noteq> CHR ''-'' \<and> \<not> re_lower c \<and> \<not> re_upper c"
  by (auto simp: re_digit_def re_lower_def re_upper_def less_eq_char_def)

lemma rmatch_digits_Nil: "rmatch digits [] = []"
  by (simp add: digits_def rmatch.simps(4))

lemma rmatch_digits_Cons:
  "rmatch digits (c # cs) = (if re_digit c then rmatch digits cs @ [cs] else [])"
  by (simp add: digits_def rmatch.simps(4))

lemma rmatch_piece_Nil: "rmatch piece [] = []"
  by (simp add: piece_def rmatch_digits_Nil)

lemma rmatch_piece_Cons:
  "rmatch piece (c # cs) =
     (if re_digit c then rmatch digits cs @ [cs] else if version_char c then [cs] else [])"
  by (auto simp: piece_def rmatch_digits_Cons version_char_def re_digit_def re_lower_def
        re_upper_def less_eq_char_def)

lemma rmatch_digits_head:
  "hd (rmatch digits cs @ [cs]) = dropWhile re_digit cs"
  by (induction cs) (simp_all add: rmatch_digits_Nil rmatch_digits_Cons hd_append)

lemma dropWhile_version_digit:
  "dropWhile version_char (dropWhile re_digit cs) = dropWhile version_char cs"
  by (induction cs) (simp_all add: digit_is_version_char)

lemma rmatch_plus_piece_Nil: "rmatch (Plus piece) [] = []"
  by (simp add: rmatch.simps(4) rmatch_piece_Nil)

lemma rmatch_plus_piece_stop:
  "\<not> version_char c \<Longrightarrow> rmatch (Plus piece) (c # cs) = []"
  using digit_is_version_char [of c] by (auto simp: rmatch.simps(4) rmatch_piece_Cons)

lemma rmatch_plus_piece_none:
  "s = [] \<or> \<not> version_char (hd s) \<Longrightarrow> rmatch (Plus piece) s = []"
  by (cases s) (auto simp: rmatch_plus_piece_Nil rmatch_plus_piece_stop)

lemma hd_concat_map:
  "f x \<noteq> [] \<Longrightarrow> hd (concat (map f (x # xs))) = hd (f x)"
  by simp

lemma rmatch_plus_piece_greedy:
  "version_char c \<Longrightarrow>
     rmatch (Plus piece) (c # cs) \<noteq> [] \<and> hd (rmatch (Plus piece) (c # cs)) = dropWhile version_char cs"
proof (induction "length cs" arbitrary: c cs rule: less_induct)
  case less
  have step: "rmatch (Plus piece) t \<noteq> [] \<and> hd (rmatch (Plus piece) t @ [t]) = dropWhile version_char t"
    if len: "length t \<le> length cs" and ne: "t \<noteq> []" and vc: "version_char (hd t)" for t
  proof -
    obtain c' cs' where t: "t = c' # cs'" using ne by (cases t) auto
    have "length cs' < length cs" using len t by simp
    from less.hyps [OF this, of c'] vc t show ?thesis by simp
  qed
  have stop: "hd (rmatch (Plus piece) t @ [t]) = dropWhile version_char t"
    if "t = [] \<or> \<not> version_char (hd t)" for t
    using that rmatch_plus_piece_none [OF that] by (cases t) auto
  have rest: "hd (rmatch (Plus piece) t @ [t]) = dropWhile version_char t"
    if "length t \<le> length cs" for t
    using step [OF that] stop [of t] by blast
  show ?case
  proof (cases "re_digit c")
    case True
    let ?t0 = "dropWhile re_digit cs"
    obtain ts where L: "rmatch digits cs @ [cs] = ?t0 # ts"
      using rmatch_digits_head [of cs] by (cases "rmatch digits cs @ [cs]") auto
    have len: "length ?t0 \<le> length cs" by (rule length_dropWhile_le)
    have "rmatch (Plus piece) (c # cs) =
        concat (map (\<lambda>t. (if length t < length (c # cs) then rmatch (Plus piece) t else []) @ [t]) (?t0 # ts))"
      using True L by (simp add: rmatch.simps(4) [of piece] rmatch_piece_Cons)
    then have "rmatch (Plus piece) (c # cs) \<noteq> [] \<and>
       hd (rmatch (Plus piece) (c # cs)) = hd (rmatch (Plus piece) ?t0 @ [?t0])"
      using len by (simp add: hd_append)
    with rest [OF len] show ?thesis by (simp add: dropWhile_version_digit)
  next
    case False
    with less.prems have "rmatch (Plus piece) (c # cs) = rmatch (Plus piece) cs @ [cs]"
      by (simp add: rmatch.simps(4) [of piece] rmatch_piece_Cons)
    with rest [of cs] show ?thesis by simp
  qed
qed

lemma rmatch_version_pattern_Nil: "rmatch version_pattern [] = []"
  by (simp add: version_pattern_def rmatch_digits_Nil)

lemma rmatch_version_pattern_Cons:
  "rmatch version_pattern (d # cs) =
     (if re_digit d then rmatch version_pattern cs @ rmatch (Plus piece) cs else [])"
  by (simp add: version_pattern_def rmatch_digits_Cons)

lemma rmatch_version_pattern_none:
  "s = [] \<or> \<not> re_digit (hd s) \<Longrightarrow> rmatch version_pattern s = []"
  by (cases s) (auto simp: rmatch_version_pattern_Nil rmatch_version_pattern_Cons)

lemma rmatch_version_pattern_short:
  "cs = [] \<or> \<not> version_char (hd cs) \<Longrightarrow> rmatch version_pattern (d # cs) = []"
proof -
  assume a: "cs = [] \<or> \<not> version_char (hd cs)"
  then have "cs = [] \<or> \<not> re_digit (hd cs)"
    using digit_is_version_char [of "hd cs"] by blast
  then have "rmatch version_pattern cs = []" by (rule rmatch_version_pattern_none)
  moreover have "rmatch (Plus piece) cs = []" using a by (rule rmatch_plus_piece_none)
  ultimately show ?thesis by (simp add: rmatch_version_pattern_Cons)
qed

lemma rmatch_version_pattern_greedy:
  "re_digit d \<Longrightarrow> version_char c \<Longrightarrow>
     rmatch version_pattern (d # c # cs) \<noteq> [] \<and>
     hd (rmatch version_pattern (d # c # cs)) = dropWhile version_char cs"
proof (induction cs arbitrary: d c)
  case Nil
  then show ?case
    using rmatch_plus_piece_greedy [of c "[]"]
    by (simp add: rmatch_version_pattern_Cons [of d] rmatch_version_pattern_short)
next
  case (Cons c' cs)
  show ?case
  proof (cases "re_digit c \<and> version_char c'")
    case True
    with Cons.IH [of c c'] Cons.prems show ?thesis
      by (simp add: rmatch_version_pattern_Cons [of d] hd_append)
  next
    case False
    then have "rmatch version_pattern (c # c' # cs) = []"
      using rmatch_version_pattern_short [of "c' # cs" c]
        rmatch_version_pattern_none [of "c # c' # cs"] by auto
    with Cons.prems rmatch_plus_piece_greedy [of c "c' # cs"] show ?thesis
      by (simp add: rmatch_version_pattern_Cons [of d])
  qed
qed

lemma take_length_dropWhile:
  "take (length xs - length (dropWhile P xs)) xs = takeWhile P xs"
  by (induction xs) (simp_all add: Suc_diff_le length_dropWhile_le)

lemma search_version_pattern:
  "search version_pattern s = map_option (\<lambda>(u, v, w). v) (first_version_like s)"
proof (induction s rule: first_version_like.induct)
  case 1
  show ?case by (simp add: rmatch_version_pattern_Nil)
next
  case (2 d)
  show ?case by (simp add: rmatch_version_pattern_short rmatch_version_pattern_Nil)
next
  case (3 d c cs)
  show ?case
  proof (cases "re_digit d \<and> version_char c")
    case True
    then obtain t ts where m: "rmatch version_pattern (d # c # cs) = t # ts"
      and t: "t = dropWhile version_char cs"
      using rmatch_version_pattern_greedy [of d c cs]
      by (cases "rmatch version_pattern (d # c # cs)") auto
    have "length t \<le> length cs" unfolding t by (rule length_dropWhile_le)
    then have "take (length (d # c # cs) - length t) (d # c # cs) = d # c # takeWhile version_char cs"
      using take_length_dropWhile [of cs version_char] by (simp add: t Suc_diff_le)
    with True m show ?thesis by simp
  next
    case False
    then have "rmatch version_pattern (d # c # cs) = []"
      using rmatch_version_pattern_short [of "c # cs" d]
        rmatch_version_pattern_none [of "d # c # cs"] by auto
    with False 3 show ?thesis by (auto simp: map_option.compositionality comp_def split_def)
  qed
qed

section \<open>The first version-like substring\<close>

lemma version_like_iff:
  "version_like v \<longleftrightarrow> (\<exists>d c cs. v = d # c # cs \<and> re_digit d \<and> version_char c \<and> list_all version_char cs)"
  by (cases v rule: version_like.cases) auto

lemma prefix_takeWhile_length:
  "list_all P p \<Longrightarrow> length p \<le> length (takeWhile P (p @ q))"
  by (induction p) auto

lemma version_like_takeWhile:
  "re_digit d \<Longrightarrow> version_char c \<Longrightarrow> version_like (d # takeWhile version_char (c # cs))"
  by (simp add: list_all_iff) (meson set_takeWhileD)

lemma first_version_like_None:
  "first_version_like line = None \<Longrightarrow> line = u @ v @ w \<Longrightarrow> \<not> version_like v"
proof (induction line arbitrary: u rule: first_version_like.induct)
  case 1
  then show ?case by simp
next
  case (2 d)
  then show ?case by (cases v rule: version_like.cases) (auto simp: append_eq_Cons_conv)
next
  case (3 d c cs)
  from "3.prems"(1) have no: "\<not> (re_digit d \<and> version_char c)"
    and rec: "first_version_like (c # cs) = None"
    by (auto split: if_splits)
  show ?case
  proof (cases u)
    case Nil
    show ?thesis
    proof
      assume "version_like v"
      then obtain d' c' cs' where v: "v = d' # c' # cs'" "re_digit d'" "version_char c'"
        by (auto simp: version_like_iff)
      with "3.prems"(2) Nil have "d' = d" "c' = c" by auto
      with v no show False by simp
    qed
  next
    case (Cons x u')
    with "3.prems"(2) have "c # cs = u' @ v @ w" by simp
    from "3.IH" [OF no rec this] show ?thesis .
  qed
qed

lemma first_version_like_Some:
  "first_version_like line = Some (u, v, w) \<Longrightarrow>
     line = u @ v @ w \<and> version_like v \<and>
     (\<forall>u' v' w'. line = u' @ v' @ w' \<and> version_like v' \<longrightarrow> length u \<le> length u') \<and>
     (\<forall>v' w'. line = u @ v' @ w' \<and> version_like v' \<longrightarrow> length v' \<le> length v)"
proof (induction line arbitrary: u rule: first_version_like.induct)
  case 1
  then show ?case by simp
next
  case (2 d)
  then show ?case by simp
next
  case (3 d c cs)
  show ?case
  proof (cases "re_digit d \<and> version_char c")
    case True
    with "3.prems" have u: "u = []" and v: "v = d # takeWhile version_char (c # cs)"
      and w: "w = dropWhile version_char (c # cs)" by auto
    have "length v' \<le> length v" if "d # c # cs = v' @ w'" "version_like v'" for v' w'
    proof -
      from that(2) obtain d' r where v': "v' = d' # r" "list_all version_char r"
        by (auto simp: version_like_iff)
      with that(1) have "c # cs = r @ w'" by simp
      with prefix_takeWhile_length [OF v'(2), of w']
      show ?thesis by (simp add: v v'(1))
    qed
    with True u v w show ?thesis
      using version_like_takeWhile [of d c cs] by auto
  next
    case False
    with "3.prems" obtain u0 where rec: "first_version_like (c # cs) = Some (u0, v, w)"
      and u: "u = d # u0" by (auto split: prod.splits)
    note IH = "3.IH" [OF False rec]
    have first: "length u \<le> length u'" if "d # c # cs = u' @ v' @ w'" "version_like v'" for u' v' w'
    proof (cases u')
      case Nil
      from that(2) obtain d' c' cs' where v': "v' = d' # c' # cs'" "re_digit d'" "version_char c'"
        by (auto simp: version_like_iff)
      with that(1) Nil have "d' = d" "c' = c" by auto
      with v' False show ?thesis by simp
    next
      case (Cons x u'')
      with that(1) have "c # cs = u'' @ v' @ w'" by simp
      with IH that(2) have "length u0 \<le> length u''" by blast
      then show ?thesis by (simp add: u Cons)
    qed
    have "length v' \<le> length v" if "d # c # cs = u @ v' @ w'" "version_like v'" for v' w'
      using that IH by (simp add: u)
    with IH first u show ?thesis by simp
  qed
qed

lemma first_version_like_unique:
  assumes "line = u @ v @ w" and "version_like v"
    and "\<forall>u' v' w'. line = u' @ v' @ w' \<and> version_like v' \<longrightarrow> length u \<le> length u'"
    and "\<forall>v' w'. line = u @ v' @ w' \<and> version_like v' \<longrightarrow> length v' \<le> length v"
  shows "first_version_like line = Some (u, v, w)"
proof -
  obtain u0 v0 w0 where f: "first_version_like line = Some (u0, v0, w0)"
    using first_version_like_None [OF _ assms(1)] assms(2)
    by (cases "first_version_like line") auto
  note p = first_version_like_Some [OF f]
  from p assms have "length u0 \<le> length u" by blast
  moreover from p assms(3) have "length u \<le> length u0" by blast
  ultimately have "length u = length u0" by simp
  with p assms(1) have u: "u = u0" and r: "v @ w = v0 @ w0"
    by (auto simp: append_eq_append_conv)
  from p assms(1,2) u have "length v \<le> length v0" by blast
  moreover from p assms(4) u have "length v0 \<le> length v" by blast
  ultimately have "length v = length v0" by simp
  with r have "v = v0" "w = w0" by (auto simp: append_eq_append_conv)
  with f u show ?thesis by simp
qed

text \<open>A line with a version-like substring has a first one, and a longest one there.\<close>

lemma first_maximal_exists:
  assumes "line = u @ v @ w" and "version_like v"
  shows "\<exists>u0 v0 w0. line = u0 @ v0 @ w0 \<and> version_like v0 \<and>
     (\<forall>u' v' w'. line = u' @ v' @ w' \<and> version_like v' \<longrightarrow> length u0 \<le> length u') \<and>
     (\<forall>v' w'. line = u0 @ v' @ w' \<and> version_like v' \<longrightarrow> length v' \<le> length v0)"
proof -
  obtain u0 v0 w0 where "first_version_like line = Some (u0, v0, w0)"
    using first_version_like_None [OF _ assms(1)] assms(2)
    by (cases "first_version_like line") auto
  from first_version_like_Some [OF this] show ?thesis by blast
qed

section \<open>Claims about version extraction\<close>

lemma version_like_last: "version_like v \<Longrightarrow> version_char (last v)"
  by (cases v rule: version_like.cases) (auto simp: list_all_iff)

lemma version_like_nonempty: "version_like v \<Longrightarrow> v \<noteq> [] \<and> butlast v \<noteq> []"
  by (cases v rule: version_like.cases) auto

lemma slice_from_last_eq: "v \<noteq> [] \<Longrightarrow> slice_from_last v = [last v]"
  by (cases v rule: rev_cases) (auto simp: slice_from_last_def)

lemma slice_to_last_eq: "slice_to_last v = butlast v"
  by (simp add: slice_to_last_def butlast_conv_take)

lemma version_char_alnum:
  "version_char c \<Longrightarrow>
     (isdigit_char c \<or> isalpha_char c) = (re_digit c \<or> re_lower c \<or> re_upper c)"
  by (auto simp: version_char_def isdigit_char_def isalpha_char_def re_digit_def re_lower_def
        re_upper_def less_eq_char_def)

lemma handleError_3: "handleError m 3 = SystemExit 3 m"
  by (simp add: handleError_def exitCodes_def)

lemma extract_first_version_like:
  "extractKernelVersionString line =
     (case first_version_like line of
        None \<Rightarrow> Inl (SystemExit 3 (''Unable to extract version string for kernel line: '' @ line))
      | Some (u, v, w) \<Rightarrow>
          Inr (if re_digit (last v) \<or> re_lower (last v) \<or> re_upper (last v) then v else butlast v))"
proof (cases "first_version_like line")
  case None
  then show ?thesis
    by (simp add: extractKernelVersionString_def search_version_pattern handleError_3)
next
  case (Some p)
  obtain u v w where p: "p = (u, v, w)" by (cases p) auto
  from first_version_like_Some [OF Some [unfolded p]] have v: "version_like v" by simp
  show ?thesis
    using version_like_nonempty [OF v] version_char_alnum [OF version_like_last [OF v]]
    by (simp add: extractKernelVersionString_def search_version_pattern Some p
        slice_from_last_eq slice_to_last_eq isdigit_def isalpha_def)
qed

text \<open>
  Claim C3, as amended. When \<open>v\<close> is the first version-like substring of the line (no
  version-like substring starts further left) and is maximal (no version-like substring
  starting at the same place is longer), \<open>extractKernelVersionString\<close> returns \<open>v\<close>, without
  its last character when that character is neither a digit nor a letter. By
  \<open>first_version_like_None\<close> and \<open>first_version_like_Some\<close> every line with a version-like
  substring has such a \<open>v\<close>. On the line \<open>linux-image-4.7.2-201.x86_64\<close> the result is
  \<open>4.7.2-201.x86\<close>: letters belong to the pattern, so the match runs on through \<open>.x86\<close>.
\<close>

theorem extractKernelVersionString_first_maximal:
  assumes "line = u @ v @ w" and "version_like v"
    and "\<forall>u' v' w'. line = u' @ v' @ w' \<and> version_like v' \<longrightarrow> length u \<le> length u'"
    and "\<forall>v' w'. line = u @ v' @ w' \<and> version_like v' \<longrightarrow> length v' \<le> length v"
  shows "extractKernelVersionString line =
    Inr (if re_digit (last v) \<or> re_lower (last v) \<or> re_upper (last v) then v else butlast v)"
  using first_version_like_unique [OF assms] by (simp add: extract_first_version_like)

lemmas class_defs = re_digit_def re_lower_def re_upper_def version_char_def

lemma fvl_example:
  "first_version_like ''linux-image-4.7.2-201.x86_64'' = Some (''linux-image-'', ''4.7.2-201.x86'', ''_64'')"
  by (simp add: class_defs)

theorem extractKernelVersionString_first_maximal_witness:
  "extractKernelVersionString ''linux-image-4.7.2-201.x86_64'' = Inr ''4.7.2-201.x86''"
proof -
  note h = first_version_like_Some [OF fvl_example]
  have "extractKernelVersionString ''linux-image-4.7.2-201.x86_64'' =
    Inr (if re_digit (last ''4.7.2-201.x86'') \<or> re_lower (last ''4.7.2-201.x86'') \<or> re_upper (last ''4.7.2-201.x86'')
         then ''4.7.2-201.x86'' else butlast ''4.7.2-201.x86'')"
    by (rule extractKernelVersionString_first_maximal
          [of _ "''linux-image-''" "''4.7.2-201.x86''" "''_64''"]) (use h in blast)+
  then show ?thesis by (simp add: class_defs)
qed

text \<open>The value the claim C3 gives for that line is not the one computed.\<close>

theorem extractKernelVersionString_example_counterexample:
  "extractKernelVersionString ''linux-image-4.7.2-201.x86_64'' \<noteq> Inr ''4.7.2-201''"
  by (simp add: extract_first_version_like class_defs)

text \<open>
  Claim C4. On a line with no version-like substring \<open>extractKernelVersionString\<close> stops
  with exit code 3 and returns nothing, and on no line does it return the empty string.
\<close>

theorem extractKernelVersionString_never_empty:
  "(\<not> (\<exists>u v w. line = u @ v @ w \<and> version_like v) \<longrightarrow>
      extractKernelVersionString line =
        Inl (SystemExit 3 (''Unable to extract version string for kernel line: '' @ line)))
   \<and> extractKernelVersionString line \<noteq> Inr []"
proof (cases "first_version_like line")
  case None
  then show ?thesis by (simp add: extract_first_version_like)
next
  case (Some p)
  obtain u v w where p: "p = (u, v, w)" by (cases p) auto
  from first_version_like_Some [OF Some [unfolded p]]
  have l: "line = u @ v @ w" and v: "version_like v" by simp_all
  from l v have "\<exists>u v w. line = u @ v @ w \<and> version_like v" by blast
  moreover have "extractKernelVersionString line \<noteq> Inr []"
    using version_like_nonempty [OF v] by (simp add: extract_first_version_like Some p)
  ultimately show ?thesis by blast
qed

theorem extractKernelVersionString_never_empty_witness:
  "extractKernelVersionString ''linux-image'' =
     Inl (SystemExit 3 ''Unable to extract version string for kernel line: linux-image'')
   \<and> extractKernelVersionString ''linux-image'' \<noteq> Inr []"
proof -
  have "first_version_like ''linux-image'' = None" by (simp add: class_defs)
  then have "\<not> (\<exists>u v w. ''linux-image'' = u @ v @ w \<and> version_like v)"
    using first_version_like_None by blast
  with extractKernelVersionString_never_empty [of "''linux-image''"] show ?thesis by simp
qed

section \<open>Trailing whitespace and extraction\<close>

lemma isspace_not_version: "isspace_char c \<Longrightarrow> \<not> version_char c"
  by (auto simp: isspace_char_def class_defs less_eq_char_def)

lemma rstrip_decomp: "\<exists>ws. s = rstrip s @ ws \<and> list_all isspace_char ws"
proof -
  have "rev (takeWhile isspace_char (rev s) @ dropWhile isspace_char (rev s)) = s"
    by (simp only: takeWhile_dropWhile_id rev_rev_ident)
  then have "s = rstrip s @ rev (takeWhile isspace_char (rev s))"
    by (simp only: rev_append rstrip_def)
  moreover have "list_all isspace_char (rev (takeWhile isspace_char (rev s)))"
    by (simp add: list_all_iff) (meson set_takeWhileD)
  ultimately show ?thesis by blast
qed

lemma takeWhile_append_junk:
  "list_all (\<lambda>c. \<not> P c) ws \<Longrightarrow> takeWhile P (xs @ ws) = takeWhile P xs"
  by (induction xs) (auto simp: list_all_iff takeWhile_eq_Nil_iff)

lemma first_version_like_junk:
  "list_all (\<lambda>c. \<not> version_char c) ws \<Longrightarrow> first_version_like ws = None"
proof (induction ws rule: first_version_like.induct)
  case (3 d c cs)
  then show ?case using digit_is_version_char [of d] by auto
qed simp_all

lemma first_version_like_append_junk:
  assumes "list_all (\<lambda>c. \<not> version_char c) ws"
  shows "map_option (\<lambda>(u, v, w). v) (first_version_like (p @ ws)) =
         map_option (\<lambda>(u, v, w). v) (first_version_like p)"
proof (induction p rule: first_version_like.induct)
  case 1
  show ?case using first_version_like_junk [OF assms] by simp
next
  case (2 d)
  show ?case
  proof (cases ws)
    case Nil
    then show ?thesis by simp
  next
    case (Cons c cs)
    with assms have "\<not> version_char c" "first_version_like (c # cs) = None"
      using first_version_like_junk [OF assms] by auto
    with Cons show ?thesis by simp
  qed
next
  case (3 d c cs)
  show ?case
  proof (cases "re_digit d \<and> version_char c")
    case True
    then show ?thesis using takeWhile_append_junk [OF assms, of cs] by simp
  next
    case False
    with 3 show ?thesis
      by (auto simp: option.map_comp comp_def split_def)
  qed
qed

lemma extract_rstrip:
  "extractKernelVersionString line =
     (case extractKernelVersionString (rstrip line) of
        Inr versionString \<Rightarrow> Inr versionString
      | Inl e \<Rightarrow> Inl (SystemExit 3 (''Unable to extract version string for kernel line: '' @ line)))"
proof -
  obtain ws where d: "line = rstrip line @ ws" and ws: "list_all isspace_char ws"
    using rstrip_decomp by blast
  from ws have "list_all (\<lambda>c. \<not> version_char c) ws"
    by (auto simp: list_all_iff dest: isspace_not_version)
  from first_version_like_append_junk [OF this, of "rstrip line"] d
  have "map_option (\<lambda>(u, v, w). v) (first_version_like line) =
        map_option (\<lambda>(u, v, w). v) (first_version_like (rstrip line))" by simp
  then show ?thesis
    by (auto simp: extract_first_version_like split: option.splits)
qed

section \<open>The current kernel\<close>

lemma executeCommandWithOutput_ok:
  assumes "spawn os (commandName # commandArgs) (world s) = (Exited 0 b, w)"
    and "decode os b = Some text"
  shows "executeCommandWithOutput os commandName commandArgs s =
    (Inr text, \<lparr>world = w, calls = calls s @ [commandName # commandArgs]\<rparr>)"
  using assms by (simp add: executeCommandWithOutput_def launch_def)

text \<open>
  What \<open>getCurrentKernel\<close> does with the output of \<open>uname -r\<close>: the extraction is
  applied to the output as captured, trailing whitespace included.
\<close>

lemma getCurrentKernel_as_captured:
  assumes "spawn os [''uname'', ''-r''] (world s) = (Exited 0 b, w)"
    and "decode os b = Some unameOutput"
  shows "getCurrentKernel os s =
    (extractKernelVersionString unameOutput, \<lparr>world = w, calls = calls s @ [[''uname'', ''-r'']]\<rparr>)"
  by (simp add: getCurrentKernel_def executeCommandWithOutput_ok [OF assms])

text \<open>
  Whitespace is not part of a version-like substring, so a token that is returned is the
  token of the stripped output; a failure keeps exit code 3 but quotes the unstripped line.
\<close>

lemma getCurrentKernel_token:
  assumes "spawn os [''uname'', ''-r''] (world s) = (Exited 0 b, w)"
    and "decode os b = Some unameOutput"
  shows "fst (getCurrentKernel os s) =
    (case extractKernelVersionString (rstrip unameOutput) of
       Inr versionString \<Rightarrow> Inr versionString
     | Inl e \<Rightarrow> Inl (SystemExit 3 (''Unable to extract version string for kernel line: '' @ unameOutput)))"
  using extract_rstrip [of unameOutput]
  by (simp add: getCurrentKernel_as_captured [OF assms])

lemmas text_defs = rstrip_def isspace_char_def split_newline_def


section \<open>Capturing output\<close>

text \<open>
  Claim C2, as amended. \<open>executeCommandWithOutput\<close> returns the decoded standard output
  exactly when the program starts, exits with status 0 and its output decodes; it fails
  with \<open>OSError\<close> exactly when the program cannot be started, and with
  \<open>CalledProcessError\<close> exactly when the program exits with a status other than 0.
\<close>

theorem executeCommandWithOutput_result:
  assumes "spawn os (commandName # commandArgs) (world s) = (p, w)"
  shows "(fst (executeCommandWithOutput os commandName commandArgs s) = Inr text
            \<longleftrightarrow> (\<exists>b. p = Exited 0 b \<and> decode os b = Some text))
       \<and> (fst (executeCommandWithOutput os commandName commandArgs s) = Inl OSError
            \<longleftrightarrow> p = NotStarted)
       \<and> (fst (executeCommandWithOutput os commandName commandArgs s) = Inl (CalledProcessError returncode)
            \<longleftrightarrow> returncode \<noteq> 0 \<and> (\<exists>b. p = Exited returncode b))"
  using assms
  by (cases p) (auto simp: executeCommandWithOutput_def launch_def split: option.splits)

theorem executeCommandWithOutput_result_witness:
  "fst (executeCommandWithOutput (scripted [([''uname'', ''-r''], Exited 0 ''4.7.2-201.fc24.x86_64\<newline>'')])
         ''uname'' [''-r''] boot) = Inr ''4.7.2-201.fc24.x86_64\<newline>''"
proof -
  let ?os = "scripted [([''uname'', ''-r''], Exited 0 ''4.7.2-201.fc24.x86_64\<newline>'')]"
  have sp: "spawn ?os [''uname'', ''-r''] (world boot) = (Exited 0 ''4.7.2-201.fc24.x86_64\<newline>'', ())"
    by (simp add: scripted_def boot_def)
  have "decode ?os ''4.7.2-201.fc24.x86_64\<newline>'' = Some ''4.7.2-201.fc24.x86_64\<newline>''"
    by (simp add: scripted_def)
  with executeCommandWithOutput_result [OF sp, of "''4.7.2-201.fc24.x86_64\<newline>''"]
  show ?thesis by blast
qed

text \<open>
  Against claim C2 as stated: a listing command that starts, writes a line and exits with
  status 1 makes \<open>executeCommandWithOutput\<close> fail instead of returning the line.
\<close>

theorem executeCommandWithOutput_status_counterexample:
  "fst (executeCommandWithOutput
         (scripted [([''dpkg'', ''--list'', ''|'', ''grep'', ''linux-image''],
                     Exited 1 ''ii  linux-image-4.7.2-201  amd64\<newline>'')])
         ''dpkg'' [''--list'', ''|'', ''grep'', ''linux-image''] boot)
     = Inl (CalledProcessError 1)"
  by (simp add: executeCommandWithOutput_def launch_def scripted_def boot_def)

section \<open>Newer kernels\<close>

lemma compareKernels_values: "compareKernels P kernel1 kernel2 \<in> {1, - 1, 0}"
  by (simp add: compareKernels_def Let_def)

lemma newer_from_filter:
  "newer_from P c acc L = acc @ filter (\<lambda>k. compareKernels P k c = 1) L"
  by (induction L arbitrary: acc) simp_all

lemmas spec_versions_defs = compareKernels_def spec_versions_def segment_less_def numeric_def
  re_digit_def

lemma getNewKernels_filter:
  "getNewKernels P currentKernel installedKernels =
     filter (\<lambda>k. compareKernels P k currentKernel = 1) installedKernels"
  by (simp add: getNewKernels_def newer_from_filter)

text \<open>
  Claim C1. \<open>getNewKernels\<close> returns the installed kernels that compare greater than the
  current kernel (\<open>compareKernels\<close> returns 1), in the order of the input and with nothing
  else, whatever the version library is. In particular, for a library that puts \<open>4.5.5\<close>
  below \<open>4.7.2-201\<close>, \<open>4.7.2-201\<close> level with itself and \<open>4.8.0-1\<close> above it, the current
  kernel \<open>4.7.2-201\<close> and the installed kernels \<open>4.5.5\<close>, \<open>4.7.2-201\<close>, \<open>4.8.0-1\<close> give
  \<open>4.8.0-1\<close> alone.
\<close>

theorem getNewKernels_strictly_newer:
  "getNewKernels P currentKernel installedKernels =
     filter (\<lambda>k. compareKernels P k currentKernel = 1) installedKernels
   \<and> (compareKernels P ''4.5.5'' ''4.7.2-201'' = - 1
        \<and> compareKernels P ''4.7.2-201'' ''4.7.2-201'' = 0
        \<and> compareKernels P ''4.8.0-1'' ''4.7.2-201'' = 1 \<longrightarrow>
      getNewKernels P ''4.7.2-201'' [''4.5.5'', ''4.7.2-201'', ''4.8.0-1''] = [''4.8.0-1''])"
  by (simp add: getNewKernels_filter)

text \<open>The comparator of the specification is such a library.\<close>

theorem getNewKernels_strictly_newer_witness:
  "getNewKernels spec_versions ''4.7.2-201'' [''4.5.5'', ''4.7.2-201'', ''4.8.0-1''] = [''4.8.0-1'']"
proof -
  have "compareKernels spec_versions ''4.5.5'' ''4.7.2-201'' = - 1"
    by (simp add: spec_versions_defs)
  moreover have "compareKernels spec_versions ''4.7.2-201'' ''4.7.2-201'' = 0"
    by (simp add: spec_versions_defs)
  moreover have "compareKernels spec_versions ''4.8.0-1'' ''4.7.2-201'' = 1"
    by (simp add: spec_versions_defs)
  ultimately show ?thesis
    using getNewKernels_strictly_newer [of spec_versions] by blast
qed

section \<open>Detecting the package manager\<close>

lemma executeCommandWithExitStatus_eq:
  "executeCommandWithExitStatus os commandName commandArgs s =
     (reported_status os (commandName # commandArgs) (world s),
      \<lparr>world = snd (spawn os (commandName # commandArgs) (world s)),
       calls = calls s @ [commandName # commandArgs]\<rparr>)"
  by (cases "spawn os (commandName # commandArgs) (world s)")
     (auto simp: executeCommandWithExitStatus_def launch_def reported_status_def
           split: completed.splits)

lemma handleError_1: "handleError m 1 = SystemExit 1 m"
  by (simp add: handleError_def exitCodes_def)


lemma getPackageManager_eq:
  assumes "exit_statuses os probes (world s) = [rpmStatus, dpkgStatus, pacmanStatus]"
  shows "fst (getPackageManager os s) =
      (if rpmStatus = 0 then Inr ''rpm'' else if dpkgStatus = 0 then Inr ''dpkg''
       else if pacmanStatus = 0 then Inr ''pacman''
       else Inl (SystemExit 1 ''Package manager could not be determined''))"
    and "calls (snd (getPackageManager os s)) =
      calls s @ take (if rpmStatus = 0 then 1 else if dpkgStatus = 0 then 2 else 3) probes"
  using assms
  by (simp_all add: getPackageManager_def executeCommandWithExitStatus_eq probes_def handleError_1)

lemma main_no_package_manager:
  "fst (getPackageManager os s) = Inl e \<Longrightarrow> fst (main P os privateKeyFile publicKeyFile s) = Inl e"
  by (cases "getPackageManager os s") (auto simp: main_def)

text \<open>
  Claim C6. \<open>getPackageManager\<close> runs \<open>rpm\<close>, \<open>dpkg\<close> and \<open>pacman\<close> with \<open>--version\<close>, in
  that order and through \<open>executeCommandWithExitStatus\<close>, stops at the first that reports
  status 0 and returns its name; when all three report another status it stops with
  \<open>Package manager could not be determined\<close>, and the script ends with exit code 1.
\<close>

theorem getPackageManager_first_zero:
  assumes "exit_statuses os probes (world s) = [rpmStatus, dpkgStatus, pacmanStatus]"
  shows "fst (getPackageManager os s) =
      (if rpmStatus = 0 then Inr ''rpm'' else if dpkgStatus = 0 then Inr ''dpkg''
       else if pacmanStatus = 0 then Inr ''pacman''
       else Inl (SystemExit 1 ''Package manager could not be determined''))
    \<and> calls (snd (getPackageManager os s)) =
      calls s @ take (if rpmStatus = 0 then 1 else if dpkgStatus = 0 then 2 else 3) probes
    \<and> (rpmStatus \<noteq> 0 \<and> dpkgStatus \<noteq> 0 \<and> pacmanStatus \<noteq> 0 \<longrightarrow>
         exit_status (fst (main P os privateKeyFile publicKeyFile s)) = 1)"
proof -
  note g = getPackageManager_eq [OF assms]
  have "exit_status (fst (main P os privateKeyFile publicKeyFile s)) = 1"
    if "rpmStatus \<noteq> 0 \<and> dpkgStatus \<noteq> 0 \<and> pacmanStatus \<noteq> 0"
    using that g(1) main_no_package_manager [of os s _ P privateKeyFile publicKeyFile] by simp
  with g show ?thesis by blast
qed

theorem getPackageManager_first_zero_witness:
  "fst (getPackageManager (scripted [([''dpkg'', ''--version''], Exited 0 ''Debian dpkg''),
                                     ([''pacman'', ''--version''], Exited 0 ''Pacman'')]) boot) = Inr ''dpkg''
   \<and> calls (snd (getPackageManager (scripted [([''dpkg'', ''--version''], Exited 0 ''Debian dpkg''),
                                     ([''pacman'', ''--version''], Exited 0 ''Pacman'')]) boot))
       = [[''rpm'', ''--version''], [''dpkg'', ''--version'']]
   \<and> exit_status (fst (main spec_versions (scripted []) ''private.key'' ''public.der'' boot)) = 1"
proof -
  let ?os = "scripted [([''dpkg'', ''--version''], Exited 0 ''Debian dpkg''),
                       ([''pacman'', ''--version''], Exited 0 ''Pacman'')]"
  have a: "exit_statuses ?os probes (world boot) = [127, 0, 0]"
    by (simp add: scripted_def probes_def boot_def reported_status_def)
  have b: "exit_statuses (scripted []) probes (world boot) = [127, 127, 127]"
    by (simp add: scripted_def probes_def boot_def reported_status_def)
  show ?thesis
    using getPackageManager_first_zero [OF a]
      getPackageManager_first_zero [OF b, of spec_versions "''private.key''" "''public.der''"]
    by (simp add: probes_def boot_def)
qed

section \<open>Signing the modules of a kernel\<close>





section \<open>Installed kernels\<close>

lemma extract_error:
  "extractKernelVersionString line = Inl e \<Longrightarrow>
     e = SystemExit 3 (''Unable to extract version string for kernel line: '' @ line)"
  by (auto simp: extract_first_version_like split: option.splits)

lemma versions_from_all:
  "map extractKernelVersionString outputLines = map Inr kernelVersions \<Longrightarrow>
     versions_from acc outputLines = Inr (acc @ kernelVersions)"
proof (induction outputLines arbitrary: acc kernelVersions)
  case Nil
  then show ?case by simp
next
  case (Cons line outputLines)
  then obtain v vs where k: "kernelVersions = v # vs"
    and v: "extractKernelVersionString line = Inr v"
    and vs: "map extractKernelVersionString outputLines = map Inr vs"
    by (cases kernelVersions) auto
  from Cons.IH [OF vs, of "acc @ [v]"] v k show ?case by simp
qed

lemma versions_from_some_fails:
  "line \<in> set outputLines \<Longrightarrow> extractKernelVersionString line = Inl e \<Longrightarrow>
     \<exists>msg. versions_from acc outputLines = Inl (SystemExit 3 msg)"
proof (induction outputLines arbitrary: acc)
  case Nil
  then show ?case by simp
next
  case (Cons l outputLines)
  show ?case
  proof (cases "extractKernelVersionString l")
    case (Inl e')
    with extract_error [OF Inl] show ?thesis by simp
  next
    case (Inr v)
    with Cons.prems have "line \<in> set outputLines" by auto
    from Cons.IH [OF this Cons.prems(2), of "acc @ [v]"] Inr show ?thesis by simp
  qed
qed

text \<open>
  Claim C8. The three package managers have three different listing commands. When the
  listing command exits with status 0 and its output decodes, \<open>getInstalledKernels\<close>
  makes that one call, strips the trailing whitespace of the output and splits it at
  newlines; when every line yields a version, the result is the list of those versions,
  one per line and in the order of the lines, duplicates kept; when some line yields
  none, the whole call stops with exit code 3 and returns no list.
\<close>

theorem getInstalledKernels_lines:
  assumes "(packageManager, argv) \<in> set listing_commands"
    and "spawn os argv (world s) = (Exited 0 b, w)"
    and "decode os b = Some output"
    and "outputLines = split_newline (rstrip output)"
  shows "distinct (map snd listing_commands)
    \<and> snd (getInstalledKernels os packageManager s) = \<lparr>world = w, calls = calls s @ [argv]\<rparr>
    \<and> (\<forall>kernelVersions.
          map extractKernelVersionString outputLines = map Inr kernelVersions \<longrightarrow>
          fst (getInstalledKernels os packageManager s) = Inr kernelVersions)
    \<and> (\<forall>line \<in> set outputLines. \<forall>e.
          extractKernelVersionString line = Inl e \<longrightarrow>
          (\<exists>msg. fst (getInstalledKernels os packageManager s) = Inl (SystemExit 3 msg)))"
proof -
  obtain commandName commandArgs where argv: "argv = commandName # commandArgs"
    using assms(1) by (auto simp: listing_commands_def)
  note run = executeCommandWithOutput_ok [OF assms(2) [unfolded argv] assms(3)]
  have g: "getInstalledKernels os packageManager s =
      (versions_from [] outputLines, \<lparr>world = w, calls = calls s @ [argv]\<rparr>)"
    using assms(1) run argv
    by (auto simp: listing_commands_def getInstalledKernels_def assms(4))
  have "distinct (map snd listing_commands)" by (simp add: listing_commands_def)
  with g versions_from_all [of outputLines _ "[]"] versions_from_some_fails [of _ outputLines _ "[]"]
  show ?thesis by auto
qed

theorem getInstalledKernels_lines_witness:
  "getInstalledKernels
     (scripted [([''rpm'', ''-qa'', ''kernel''],
        Exited 0 ''kernel-4.8.0-1.fc24.x86_64\<newline>kernel-4.7.2-201.fc24.x86_64\<newline>kernel-4.8.0-1.fc24.x86_64\<newline>'')])
     ''rpm'' boot =
   (Inr [''4.8.0-1.fc24.x86'', ''4.7.2-201.fc24.x86'', ''4.8.0-1.fc24.x86''],
    \<lparr>world = (), calls = [[''rpm'', ''-qa'', ''kernel'']]\<rparr>)"
proof -
  let ?out = "''kernel-4.8.0-1.fc24.x86_64\<newline>kernel-4.7.2-201.fc24.x86_64\<newline>kernel-4.8.0-1.fc24.x86_64\<newline>''"
  let ?os = "scripted [([''rpm'', ''-qa'', ''kernel''], Exited 0 ?out)]"
  let ?lines = "[''kernel-4.8.0-1.fc24.x86_64'', ''kernel-4.7.2-201.fc24.x86_64'', ''kernel-4.8.0-1.fc24.x86_64'']"
  have a: "(''rpm'', [''rpm'', ''-qa'', ''kernel'']) \<in> set listing_commands"
    by (simp add: listing_commands_def)
  have b: "spawn ?os [''rpm'', ''-qa'', ''kernel''] (world boot) = (Exited 0 ?out, ())"
    by (simp add: scripted_def boot_def)
  have c: "decode ?os ?out = Some ?out" by (simp add: scripted_def)
  have d: "?lines = split_newline (rstrip ?out)" by (simp add: text_defs)
  have e: "map extractKernelVersionString ?lines =
      map Inr [''4.8.0-1.fc24.x86'', ''4.7.2-201.fc24.x86'', ''4.8.0-1.fc24.x86'']"
    by (simp add: extract_first_version_like class_defs)
  from getInstalledKernels_lines [OF a b c d] e
  have "fst (getInstalledKernels ?os ''rpm'' boot) =
          Inr [''4.8.0-1.fc24.x86'', ''4.7.2-201.fc24.x86'', ''4.8.0-1.fc24.x86'']"
    and "snd (getInstalledKernels ?os ''rpm'' boot) = \<lparr>world = (), calls = [[''rpm'', ''-qa'', ''kernel'']]\<rparr>"
    by (simp_all add: boot_def)
  then show ?thesis by (simp add: prod_eq_iff)
qed

section \<open>Nothing to sign\<close>

text \<open>
  Claim C10. When the package manager, the current kernel and the installed kernels are
  found and no installed kernel compares greater than the current one, \<open>getNewKernels\<close>
  returns the empty list, \<open>signNewKernels\<close> returns without running any command (the
  state, with its record of calls, is unchanged), and \<open>main\<close> returns: exit status 0.
\<close>

theorem main_nothing_to_sign:
  assumes "getPackageManager os s = (Inr packageManager, s1)"
    and "getCurrentKernel os s1 = (Inr currentKernel, s2)"
    and "getInstalledKernels os packageManager s2 = (Inr installedKernels, s3)"
    and "\<forall>k \<in> set installedKernels. compareKernels P k currentKernel \<noteq> 1"
  shows "getNewKernels P currentKernel installedKernels = []
    \<and> signNewKernels os (getNewKernels P currentKernel installedKernels)
         privateKeyFile publicKeyFile s3 = (Inr (), s3)
    \<and> main P os privateKeyFile publicKeyFile s = (Inr (), s3)
    \<and> exit_status (fst (main P os privateKeyFile publicKeyFile s)) = 0"
proof -
  from assms(4) have n: "getNewKernels P currentKernel installedKernels = []"
    by (simp add: getNewKernels_filter filter_empty_conv)
  with assms(1-3) show ?thesis by (simp add: main_def)
qed

theorem main_nothing_to_sign_witness:
  "main spec_versions
     (scripted [([''rpm'', ''--version''], Exited 0 ''RPM version 4.13''),
                ([''uname'', ''-r''], Exited 0 ''4.8.0-1.fc24.x86_64\<newline>''),
                ([''rpm'', ''-qa'', ''kernel''],
                   Exited 0 ''kernel-4.7.2-201.fc24.x86_64\<newline>kernel-4.8.0-1.fc24.x86_64\<newline>'')])
     ''private.key'' ''public.der'' boot =
   (Inr (), \<lparr>world = (), calls = [[''rpm'', ''--version''], [''uname'', ''-r''], [''rpm'', ''-qa'', ''kernel'']]\<rparr>)"
proof -
  let ?os = "scripted [([''rpm'', ''--version''], Exited 0 ''RPM version 4.13''),
                ([''uname'', ''-r''], Exited 0 ''4.8.0-1.fc24.x86_64\<newline>''),
                ([''rpm'', ''-qa'', ''kernel''],
                   Exited 0 ''kernel-4.7.2-201.fc24.x86_64\<newline>kernel-4.8.0-1.fc24.x86_64\<newline>'')]"
  let ?s1 = "\<lparr>world = (), calls = [[''rpm'', ''--version'']]\<rparr>"
  let ?s2 = "\<lparr>world = (), calls = [[''rpm'', ''--version''], [''uname'', ''-r'']]\<rparr>"
  let ?s3 = "\<lparr>world = (), calls = [[''rpm'', ''--version''], [''uname'', ''-r''], [''rpm'', ''-qa'', ''kernel'']]\<rparr>"
  have a: "getPackageManager ?os boot = (Inr ''rpm'', ?s1)"
    by (simp add: getPackageManager_def executeCommandWithExitStatus_def launch_def scripted_def boot_def)
  have x1: "extractKernelVersionString ''4.8.0-1.fc24.x86_64\<newline>'' = Inr ''4.8.0-1.fc24.x86''"
    by (simp add: extract_first_version_like class_defs)
  have b: "getCurrentKernel ?os ?s1 = (Inr ''4.8.0-1.fc24.x86'', ?s2)"
    by (simp add: getCurrentKernel_def executeCommandWithOutput_def launch_def scripted_def x1)
  have l: "split_newline (rstrip ''kernel-4.7.2-201.fc24.x86_64\<newline>kernel-4.8.0-1.fc24.x86_64\<newline>'') =
      [''kernel-4.7.2-201.fc24.x86_64'', ''kernel-4.8.0-1.fc24.x86_64'']"
    by (simp add: text_defs)
  have x2: "extractKernelVersionString ''kernel-4.7.2-201.fc24.x86_64'' = Inr ''4.7.2-201.fc24.x86''"
    by (simp add: extract_first_version_like class_defs)
  have x3: "extractKernelVersionString ''kernel-4.8.0-1.fc24.x86_64'' = Inr ''4.8.0-1.fc24.x86''"
    by (simp add: extract_first_version_like class_defs)
  have c: "getInstalledKernels ?os ''rpm'' ?s2 =
      (Inr [''4.7.2-201.fc24.x86'', ''4.8.0-1.fc24.x86''], ?s3)"
    by (simp add: getInstalledKernels_def executeCommandWithOutput_def launch_def scripted_def l x2 x3)
  have c1: "compareKernels spec_versions ''4.7.2-201.fc24.x86'' ''4.8.0-1.fc24.x86'' = - 1"
    by (simp add: spec_versions_defs)
  have c2: "compareKernels spec_versions ''4.8.0-1.fc24.x86'' ''4.8.0-1.fc24.x86'' = 0"
    by (simp add: spec_versions_defs)
  have d: "\<forall>k \<in> set [''4.7.2-201.fc24.x86'', ''4.8.0-1.fc24.x86''].
      compareKernels spec_versions k ''4.8.0-1.fc24.x86'' \<noteq> 1"
    using c1 c2 by simp
  from main_nothing_to_sign [OF a b c d] show ?thesis by simp
qed

end
